theory Spec2Isabelle
  imports Complex_Main "HOL-Library.Signed_Division"
begin

section \<open>The circular-buffer delay processor (Source/PluginProcessor.cpp)\<close>

text \<open>
  The processor owns a delay buffer (a \<^verbatim>\<open>juce::AudioBuffer<float>\<close>) and an \<^verbatim>\<open>int\<close>
  write position. \<^verbatim>\<open>prepareToPlay\<close> sizes the delay buffer, \<^verbatim>\<open>processBlock\<close> copies
  every input channel of the host's audio buffer into the delay buffer at the write
  position, wrapping around at its end, and advances the write position.

  Modelling decisions.
  \<^item> A sample (\<^verbatim>\<open>float\<close>) is a \<open>real\<close>; the rounding of single-precision arithmetic is
    not modelled, and the literal \<^verbatim>\<open>0.1f\<close> is \<open>1/10\<close>.
  \<^item> An \<^verbatim>\<open>int\<close> is an \<open>int\<close> in the range of 32 bits: every sum and difference of
    \<^verbatim>\<open>int\<close>s that \<^verbatim>\<open>processBlock\<close> forms is wrapped around into that range
    (\<open>wrap_int\<close>), as the compiled arithmetic does where C++ leaves the overflow
    undefined. Under the bound \<open>capacity \<le> 2^30\<close> nothing wraps (lemma
    \<open>no_int_overflow\<close>).
  \<^item> A \<^verbatim>\<open>float*\<close> is the memory seen through it: \<open>p i\<close> is \<^verbatim>\<open>p[i]\<close>, at negative
    offsets as well, so a read or write outside a block stays visible in the model: a
    read there yields what that memory holds, a write there changes it.
  \<^item> The channels of an audio buffer are separate memory regions, one such view each.
\<close>

subsection \<open>Samples, pointers and audio buffers\<close>

type_synonym sample = real

type_synonym pointer = "int \<Rightarrow> sample"

text \<open>Pointer arithmetic \<^verbatim>\<open>p + k\<close> (and \<^verbatim>\<open>p - k\<close> as \<open>ptr_add p (- k)\<close>).\<close>

definition ptr_add :: "pointer \<Rightarrow> int \<Rightarrow> pointer" where
  "ptr_add p k = (\<lambda>i. p (k + i))"

text \<open>
  \<^verbatim>\<open>juce::AudioBuffer<float>\<close>: a channel count, a length in samples (JUCE's \<^verbatim>\<open>size\<close>)
  and one block of samples per channel; the samples of channel \<open>c\<close> are
  \<open>channels b c i\<close> for \<open>0 \<le> i < sizeInSamples b\<close>.
\<close>

record AudioBuffer =
  numChannels :: nat
  sizeInSamples :: int
  channels :: "nat \<Rightarrow> pointer"

definition getNumSamples :: "AudioBuffer \<Rightarrow> int" where
  "getNumSamples b = sizeInSamples b"

definition getWritePointer :: "AudioBuffer \<Rightarrow> nat \<Rightarrow> pointer" where
  "getWritePointer b channel = channels b channel"

text \<open>
  \<^verbatim>\<open>AudioBuffer::clear (channel, startSample, numSamples)\<close> of the JUCE library: the
  samples \<open>[startSample, startSample + n)\<close> of one channel become zero.
\<close>

definition clear :: "AudioBuffer \<Rightarrow> nat \<Rightarrow> int \<Rightarrow> int \<Rightarrow> AudioBuffer" where
  "clear b channel startSample n =
     b\<lparr>channels := (channels b)(channel :=
          (\<lambda>i. if startSample \<le> i \<and> i < startSample + n then 0
                else channels b channel i))\<rparr>"

text \<open>
  \<^verbatim>\<open>AudioBuffer::setSize (newNumChannels, newNumSamples)\<close> of the JUCE library, called
  with its default flags (\<^verbatim>\<open>keepExistingContent\<close>, \<^verbatim>\<open>clearExtraSpace\<close> and
  \<^verbatim>\<open>avoidReallocating\<close> all false): nothing happens when both dimensions are the ones
  the buffer has; otherwise the buffer gets newly allocated storage, which JUCE
  documents as left uninitialised. \<open>fresh\<close> is the content of that new storage.
\<close>

definition setSize :: "(nat \<Rightarrow> pointer) \<Rightarrow> AudioBuffer \<Rightarrow> nat \<Rightarrow> int \<Rightarrow> AudioBuffer" where
  "setSize fresh b newNumChannels newNumSamples =
     (if newNumSamples \<noteq> sizeInSamples b \<or> newNumChannels \<noteq> numChannels b
      then \<lparr>numChannels = newNumChannels, sizeInSamples = newNumSamples, channels = fresh\<rparr>
      else b)"

text \<open>
  The copy loop of \<^verbatim>\<open>AudioBuffer::copyFromWithRamp\<close>:
  \<^verbatim>\<open>while (--numSamples >= 0) { *d++ = startGain * *source++; startGain += increment; }\<close>
  \<open>d\<close> is the destination channel, \<open>di\<close> and \<open>si\<close> the offsets the two running
  pointers have reached.
\<close>

fun rampLoop :: "pointer \<Rightarrow> int \<Rightarrow> pointer \<Rightarrow> int \<Rightarrow> nat \<Rightarrow> real \<Rightarrow> real \<Rightarrow> pointer" where
  "rampLoop d di source si 0 gain increment = d"
| "rampLoop d di source si (Suc n) gain increment =
     rampLoop (d(di := gain * source si)) (di + 1) source (si + 1) n (gain + increment) increment"

text \<open>
  \<^verbatim>\<open>AudioBuffer::copyFromWithRamp (destChannel, destStartSample, source, numSamples,
  startGain, endGain)\<close> of the JUCE library: copies \<open>numSamples\<close> samples from \<open>source\<close>
  into one channel, each multiplied by a gain that is interpolated linearly from
  \<open>startGain\<close> at the first sample to \<open>endGain\<close> after the last one. A count that is
  not positive copies nothing.
\<close>

definition copyFromWithRamp ::
  "AudioBuffer \<Rightarrow> nat \<Rightarrow> int \<Rightarrow> pointer \<Rightarrow> int \<Rightarrow> real \<Rightarrow> real \<Rightarrow> AudioBuffer" where
  "copyFromWithRamp b destChannel destStartSample source numSamples startGain endGain =
     (if numSamples > 0
      then b\<lparr>channels := (channels b)(destChannel :=
             rampLoop (channels b destChannel) destStartSample source 0 (nat numSamples)
               startGain ((endGain - startGain) / real_of_int numSamples))\<rparr>
      else b)"

subsection \<open>The arithmetic of int\<close>

text \<open>
  The value that 32-bit two's-complement arithmetic leaves for the mathematical result
  \<open>x\<close>: \<open>x\<close> itself between \<open>- 2^31\<close> and \<open>2^31 - 1\<close>, and \<open>x\<close> moved by a multiple of
  \<open>2^32\<close> into that range otherwise.
\<close>

definition wrap_int :: "int \<Rightarrow> int" where
  "wrap_int x = (x + 2147483648) mod 4294967296 - 2147483648"

subsection \<open>The processor\<close>

text \<open>
  The members \<^verbatim>\<open>delayBuffer\<close> and \<^verbatim>\<open>writePosition\<close> of PluginProcessor.h, and the two
  channel counts that the base class answers in \<^verbatim>\<open>getTotalNumInputChannels()\<close> and
  \<^verbatim>\<open>getTotalNumOutputChannels()\<close>.
\<close>

record Processor =
  totalNumInputChannels :: nat
  totalNumOutputChannels :: nat
  delayBuffer :: AudioBuffer
  writePosition :: int

text \<open>
  A newly constructed processor: \<^verbatim>\<open>int writePosition { 0 }\<close> and a default-constructed,
  empty delay buffer.
\<close>

definition newProcessor :: "nat \<Rightarrow> nat \<Rightarrow> Processor" where
  "newProcessor nIn nOut =
     \<lparr>totalNumInputChannels = nIn, totalNumOutputChannels = nOut,
      delayBuffer = \<lparr>numChannels = 0, sizeInSamples = 0, channels = (\<lambda>c i. 0)\<rparr>,
      writePosition = 0\<rparr>"

text \<open>
  The cast \<^verbatim>\<open>(int) x\<close> of a \<^verbatim>\<open>double\<close>: truncation towards zero. C++ defines the cast
  only when the truncated value is a value of \<^verbatim>\<open>int\<close>, and JUCE requires a size that is
  not negative; the statements about \<open>prepareToPlay\<close> below assume
  \<open>0 \<le> sampleRate\<close> and \<open>sampleRate * 2 < 2^31\<close>.
\<close>

definition int_cast :: "real \<Rightarrow> int" where
  "int_cast x = (if 0 \<le> x then \<lfloor>x\<rfloor> else \<lceil>x\<rceil>)"

text \<open>
  \<^verbatim>\<open>prepareToPlay (sampleRate, samplesPerBlock)\<close>, lines 102-113. It sets the size of
  the delay buffer and touches nothing else; \<open>samplesPerBlock\<close> is not used.
\<close>

definition prepareToPlay :: "(nat \<Rightarrow> pointer) \<Rightarrow> real \<Rightarrow> int \<Rightarrow> Processor \<Rightarrow> Processor" where
  "prepareToPlay fresh sampleRate samplesPerBlock p =
     (let delayBufferSize = sampleRate * 2
      in p\<lparr>delayBuffer :=
             setSize fresh (delayBuffer p) (totalNumOutputChannels p) (int_cast delayBufferSize)\<rparr>)"

text \<open>
  The body of the channel loop of \<^verbatim>\<open>processBlock\<close>, lines 166-189, for one channel:
  \<open>channelData\<close> is \<^verbatim>\<open>buffer.getWritePointer (channel)\<close>. The three \<^verbatim>\<open>int\<close> results
  are wrapped; \<^verbatim>\<open>channelData - numSamplesToEnd\<close> is arithmetic on a pointer and is not.
\<close>

definition processChannel ::
  "AudioBuffer \<Rightarrow> nat \<Rightarrow> pointer \<Rightarrow> int \<Rightarrow> int \<Rightarrow> int \<Rightarrow> AudioBuffer" where
  "processChannel db channel channelData bufferSize delayBufferSize wp =
     (if delayBufferSize > wrap_int (bufferSize + wp)
      then copyFromWithRamp db channel wp channelData bufferSize (1/10) (1/10)
      else
        let numSamplesToEnd = wrap_int (delayBufferSize - wp);
            db1 = copyFromWithRamp db channel wp channelData numSamplesToEnd (1/10) (1/10);
            numSamplesAtStart = wrap_int (bufferSize - numSamplesToEnd)
        in copyFromWithRamp db1 channel 0 (ptr_add channelData (- numSamplesToEnd))
             numSamplesAtStart (1/10) (1/10))"

text \<open>
  The first loop of \<^verbatim>\<open>processBlock\<close>, lines 157-158: every output channel that has no
  input channel is cleared.
\<close>

definition clearOutputChannels :: "Processor \<Rightarrow> AudioBuffer \<Rightarrow> AudioBuffer" where
  "clearOutputChannels p buffer =
     fold (\<lambda>i b. clear b i 0 (getNumSamples b))
       [totalNumInputChannels p..<totalNumOutputChannels p] buffer"

text \<open>
  The channel loop of \<^verbatim>\<open>processBlock\<close>, lines 161-190: every input channel of the
  host's buffer is copied into the delay buffer at the write position.
\<close>

definition copyInputChannels :: "Processor \<Rightarrow> AudioBuffer \<Rightarrow> AudioBuffer" where
  "copyInputChannels p buffer =
     (let bufferSize = getNumSamples buffer;
          delayBufferSize = getNumSamples (delayBuffer p)
      in fold (\<lambda>channel d. processChannel d channel (getWritePointer buffer channel)
                 bufferSize delayBufferSize (writePosition p))
           [0..<totalNumInputChannels p] (delayBuffer p))"

text \<open>
  \<^verbatim>\<open>processBlock (buffer, midiMessages)\<close>, lines 150-206: the two loops, then the write
  position advances. The host's buffer is passed by reference, so the model returns it
  with the processor; the MIDI buffer is not used. The sum of
  \<^verbatim>\<open>writePosition += bufferSize\<close> is wrapped; \<^verbatim>\<open>%=\<close> is the remainder of C++, \<open>smod\<close>.
  With a delay buffer of no samples the remainder divides by zero and the call does not
  return a result: the model returns \<open>DivisionByZero\<close> then.
\<close>

datatype fault = DivisionByZero

definition processBlock :: "Processor \<Rightarrow> AudioBuffer \<Rightarrow> fault + Processor \<times> AudioBuffer" where
  "processBlock p buffer =
     (let buffer1 = clearOutputChannels p buffer;
          bufferSize = getNumSamples buffer1;
          delayBufferSize = getNumSamples (delayBuffer p);
          db = copyInputChannels p buffer1;
          wp = wrap_int (writePosition p + bufferSize)
      in if delayBufferSize = 0 then Inl DivisionByZero
         else Inr (p\<lparr>delayBuffer := db, writePosition := wp smod delayBufferSize\<rparr>, buffer1))"

text \<open>
  The host calls \<^verbatim>\<open>processBlock\<close> once per block, each call on the processor that the
  call before has left; the results of all calls are kept.
\<close>

fun processBlocks ::
  "Processor \<Rightarrow> AudioBuffer list \<Rightarrow> fault + (Processor \<times> AudioBuffer) list" where
  "processBlocks p [] = Inr []"
| "processBlocks p (buffer # rest) =
     (case processBlock p buffer of
        Inl e \<Rightarrow> Inl e
      | Inr r \<Rightarrow>
          (case processBlocks (fst r) rest of
             Inl e \<Rightarrow> Inl e
           | Inr rs \<Rightarrow> Inr (r # rs)))"

subsection \<open>The accesses of the channel loop\<close>

text \<open>
  What one call of \<^verbatim>\<open>copyFromWithRamp\<close> touches: the destination indices it writes,
  and the offsets from \<open>channelData\<close> it reads when its source is
  \<open>channelData + sourceOffset\<close>.
\<close>

definition copy_writes :: "int \<Rightarrow> int \<Rightarrow> int list" where
  "copy_writes destStartSample numSamples =
     (if numSamples > 0 then [destStartSample .. destStartSample + numSamples - 1] else [])"

definition copy_reads :: "int \<Rightarrow> int \<Rightarrow> int list" where
  "copy_reads sourceOffset numSamples =
     (if numSamples > 0 then [sourceOffset .. sourceOffset + numSamples - 1] else [])"

text \<open>
  The same case distinction as \<open>processChannel\<close>, lines 169-189, collecting the indices
  of the delay buffer that are written and the offsets of the input block that are read.
\<close>

definition processChannel_writes :: "int \<Rightarrow> int \<Rightarrow> int \<Rightarrow> int list" where
  "processChannel_writes bufferSize delayBufferSize wp =
     (if delayBufferSize > wrap_int (bufferSize + wp)
      then copy_writes wp bufferSize
      else
        let numSamplesToEnd = wrap_int (delayBufferSize - wp);
            numSamplesAtStart = wrap_int (bufferSize - numSamplesToEnd)
        in copy_writes wp numSamplesToEnd @ copy_writes 0 numSamplesAtStart)"

definition processChannel_reads :: "int \<Rightarrow> int \<Rightarrow> int \<Rightarrow> int list" where
  "processChannel_reads bufferSize delayBufferSize wp =
     (if delayBufferSize > wrap_int (bufferSize + wp)
      then copy_reads 0 bufferSize
      else
        let numSamplesToEnd = wrap_int (delayBufferSize - wp);
            numSamplesAtStart = wrap_int (bufferSize - numSamplesToEnd)
        in copy_reads 0 numSamplesToEnd @ copy_reads (- numSamplesToEnd) numSamplesAtStart)"

subsection \<open>Streams of blocks\<close>

text \<open>
  The block a buffer holds on one channel, the stream that a sequence of buffers
  carries on that channel, and the impulse of a given length at index \<open>k\<close>.
\<close>

definition blockOf :: "AudioBuffer \<Rightarrow> nat \<Rightarrow> sample list" where
  "blockOf b c = map (\<lambda>i. channels b c (int i)) [0..<nat (getNumSamples b)]"

definition streamOf :: "AudioBuffer list \<Rightarrow> nat \<Rightarrow> sample list" where
  "streamOf bufs c = concat (map (\<lambda>b. blockOf b c) bufs)"

definition impulse :: "nat \<Rightarrow> nat \<Rightarrow> sample list" where
  "impulse len k = map (\<lambda>i. if i = k then 1 else 0) [0..<len]"

text \<open>
  Buffers for the examples: \<open>monoBufferAfter before xs\<close> has one channel holding the
  block \<open>xs\<close>, with the samples \<open>before\<close> in the memory just ahead of the block and
  silence everywhere else; \<open>monoBuffer xs\<close> has silence ahead of the block too;
  \<open>stereoBuffer xs ys\<close> has two channels holding the blocks \<open>xs\<close> and \<open>ys\<close>.
  \<open>silence\<close> is storage that holds zeros.
\<close>

definition monoBufferAfter :: "sample list \<Rightarrow> sample list \<Rightarrow> AudioBuffer" where
  "monoBufferAfter before xs =
     \<lparr>numChannels = 1, sizeInSamples = int (length xs),
      channels = (\<lambda>c i.
        if c = 0 \<and> 0 \<le> i \<and> i < int (length xs) then xs ! nat i
        else if c = 0 \<and> - int (length before) \<le> i \<and> i < 0
        then before ! nat (i + int (length before))
        else 0)\<rparr>"

definition monoBuffer :: "sample list \<Rightarrow> AudioBuffer" where
  "monoBuffer xs = monoBufferAfter [] xs"

definition stereoBuffer :: "sample list \<Rightarrow> sample list \<Rightarrow> AudioBuffer" where
  "stereoBuffer xs ys =
     \<lparr>numChannels = 2, sizeInSamples = int (length xs),
      channels = (\<lambda>c i.
        if c = 0 \<and> 0 \<le> i \<and> i < int (length xs) then xs ! nat i
        else if c = 1 \<and> 0 \<le> i \<and> i < int (length ys) then ys ! nat i
        else 0)\<rparr>"

definition silence :: "nat \<Rightarrow> pointer" where
  "silence = (\<lambda>c i. 0)"

text \<open>A buffer of one channel and \<open>n\<close> samples that holds silence.\<close>

definition silentBuffer :: "int \<Rightarrow> AudioBuffer" where
  "silentBuffer n = \<lparr>numChannels = 1, sizeInSamples = n, channels = silence\<rparr>"

text \<open>
  The processor and the host's buffer that a call has left, and the buffers that a
  sequence of calls has left, for calls that returned.
\<close>

definition processorAfter :: "fault + Processor \<times> AudioBuffer \<Rightarrow> Processor" where
  "processorAfter r = fst (projr r)"

definition bufferAfter :: "fault + Processor \<times> AudioBuffer \<Rightarrow> AudioBuffer" where
  "bufferAfter r = snd (projr r)"

definition buffersAfter :: "fault + (Processor \<times> AudioBuffer) list \<Rightarrow> AudioBuffer list" where
  "buffersAfter r = map snd (projr r)"

subsection \<open>The output formula of the specification\<close>

text \<open>
  These three definitions follow the words of the specification, not the source: the
  read cursor \<open>(writeCursor - delayLength + capacity) mod capacity\<close>, the delayed
  sample \<open>n\<close> read from the ring at the read cursor, and the mix
  \<open>dryMix * input[n] + wetMix * delayed[n]\<close>.
\<close>

definition spec_readCursor :: "int \<Rightarrow> int \<Rightarrow> int \<Rightarrow> int" where
  "spec_readCursor writeCursor delayLength capacity =
     (writeCursor - delayLength + capacity) mod capacity"

definition spec_delayed :: "pointer \<Rightarrow> int \<Rightarrow> int \<Rightarrow> int \<Rightarrow> int \<Rightarrow> sample" where
  "spec_delayed ring writeCursor delayLength capacity n =
     ring ((spec_readCursor writeCursor delayLength capacity + n) mod capacity)"

definition spec_output :: "real \<Rightarrow> real \<Rightarrow> sample \<Rightarrow> sample \<Rightarrow> sample" where
  "spec_output dryMix wetMix x delayed = dryMix * x + wetMix * delayed"

section \<open>Properties\<close>

subsection \<open>What the copy operations store\<close>

lemma rampLoop_apply:
  "rampLoop d di source si n gain increment j =
     (if di \<le> j \<and> j < di + int n
      then (gain + real_of_int (j - di) * increment) * source (si + (j - di))
      else d j)"
proof (induction n arbitrary: d di si gain j)
  case 0
  then show ?case by simp
next
  case (Suc n)
  show ?case
  proof (cases "j = di")
    case True
    then show ?thesis by (simp add: Suc.IH)
  next
    case False
    then show ?thesis by (simp add: Suc.IH algebra_simps)
  qed
qed

lemma copyFromWithRamp_ramp:
  "channels (copyFromWithRamp b c ds source n g h) c' j =
     (if c' = c \<and> ds \<le> j \<and> j < ds + n
      then (g + real_of_int (j - ds) * ((h - g) / real_of_int n)) * source (j - ds)
      else channels b c' j)"
  by (simp add: copyFromWithRamp_def rampLoop_apply)

lemma copyFromWithRamp_channels:
  "channels (copyFromWithRamp b c ds source n g g) c' j =
     (if c' = c \<and> ds \<le> j \<and> j < ds + n then g * source (j - ds) else channels b c' j)"
  by (simp add: copyFromWithRamp_ramp)

lemma copyFromWithRamp_dims:
  "numChannels (copyFromWithRamp b c ds source n g h) = numChannels b"
  "getNumSamples (copyFromWithRamp b c ds source n g h) = getNumSamples b"
  by (simp_all add: copyFromWithRamp_def getNumSamples_def)

text \<open>Where nothing wraps, \<open>wrap_int\<close> is the identity.\<close>

lemma wrap_int_id: "- (2 ^ 31) \<le> x \<Longrightarrow> x < 2 ^ 31 \<Longrightarrow> wrap_int x = x"
  by (simp add: wrap_int_def)

lemma wrap_int_range: "- (2 ^ 31) \<le> wrap_int x" "wrap_int x < 2 ^ 31"
  by (simp_all add: wrap_int_def)

text \<open>A sum of two values of \<^verbatim>\<open>int\<close> that is too large wraps to a negative value.\<close>

lemma wrap_int_high:
  assumes "2 ^ 31 \<le> x" and "x < 2 ^ 32"
  shows "wrap_int x = x - 2 ^ 32"
proof -
  have "x + 2147483648 = (x - 2147483648) + 4294967296"
    by simp
  then have "(x + 2147483648) mod 4294967296 = (x - 2147483648) mod 4294967296"
    by (simp only: mod_add_self2)
  also have "\<dots> = x - 2147483648"
    using assms by simp
  finally show ?thesis
    by (simp add: wrap_int_def)
qed

lemma wrap_int_nonneg:
  assumes "0 \<le> x" and "x < 2 ^ 32" and "0 \<le> wrap_int x"
  shows "wrap_int x = x" and "x < 2 ^ 31"
proof -
  show less: "x < 2 ^ 31"
  proof (rule ccontr)
    assume "\<not> x < 2 ^ 31"
    then have "wrap_int x = x - 2 ^ 32"
      using assms(2) by (intro wrap_int_high) simp_all
    then show False
      using assms(2,3) by simp
  qed
  show "wrap_int x = x"
    using assms(1) less by (simp add: wrap_int_id)
qed

lemma processChannel_wrapped:
  "channels (processChannel db c cd bs cap w) c' j =
     (if c' \<noteq> c then channels db c' j
      else if cap > wrap_int (bs + w)
      then (if w \<le> j \<and> j < w + bs then 1/10 * cd (j - w) else channels db c j)
      else if 0 \<le> j \<and> j < wrap_int (bs - wrap_int (cap - w))
      then 1/10 * cd (j - wrap_int (cap - w))
      else if w \<le> j \<and> j < w + wrap_int (cap - w) then 1/10 * cd (j - w)
      else channels db c j)"
  by (simp add: processChannel_def Let_def copyFromWithRamp_channels ptr_add_def)

text \<open>
  With a write position, a block length and a capacity that are not negative, a
  capacity in the range of \<^verbatim>\<open>int\<close> and a sum \<open>bs + w\<close> in that range, nothing wraps.
\<close>

lemma no_wrap:
  assumes "0 \<le> w" and "0 \<le> bs" and "0 \<le> cap" and "cap < 2 ^ 31" and "bs + w < 2 ^ 31"
  shows "wrap_int (bs + w) = bs + w" and "wrap_int (cap - w) = cap - w"
    and "wrap_int (bs - (cap - w)) = bs - (cap - w)"
  using assms by (simp_all add: wrap_int_id)

lemma processChannel_channels:
  assumes "0 \<le> w" and "0 \<le> bs" and "0 \<le> cap" and "cap < 2 ^ 31" and "bs + w < 2 ^ 31"
  shows "channels (processChannel db c cd bs cap w) c' j =
     (if c' \<noteq> c then channels db c' j
      else if cap > bs + w
      then (if w \<le> j \<and> j < w + bs then 1/10 * cd (j - w) else channels db c j)
      else if 0 \<le> j \<and> j < bs - (cap - w) then 1/10 * cd (j - (cap - w))
      else if w \<le> j \<and> j < cap then 1/10 * cd (j - w)
      else channels db c j)"
  by (simp add: processChannel_wrapped no_wrap [OF assms])

lemma processChannel_dims:
  "numChannels (processChannel db c cd bs cap w) = numChannels db"
  "getNumSamples (processChannel db c cd bs cap w) = getNumSamples db"
  by (simp_all add: processChannel_def Let_def copyFromWithRamp_dims)

subsection \<open>The two loops of processBlock\<close>

lemma clear_simps:
  "getNumSamples (clear b c s n) = getNumSamples b"
  "numChannels (clear b c s n) = numChannels b"
  "channels (clear b c s n) c' i =
     (if c' = c \<and> s \<le> i \<and> i < s + n then 0 else channels b c' i)"
  by (simp_all add: clear_def getNumSamples_def)

lemma fold_clear_size:
  "getNumSamples (fold (\<lambda>i b. clear b i 0 (getNumSamples b)) cs buf) = getNumSamples buf"
  by (induction cs arbitrary: buf) (simp_all add: clear_simps)

lemma fold_clear_numChannels:
  "numChannels (fold (\<lambda>i b. clear b i 0 (getNumSamples b)) cs buf) = numChannels buf"
  by (induction cs arbitrary: buf) (simp_all add: clear_simps)

lemma fold_clear_channels:
  "channels (fold (\<lambda>i b. clear b i 0 (getNumSamples b)) cs buf) c i =
     (if c \<in> set cs \<and> 0 \<le> i \<and> i < getNumSamples buf then 0 else channels buf c i)"
proof (induction cs arbitrary: buf)
  case Nil
  then show ?case by simp
next
  case (Cons a cs)
  show ?case
    by (simp add: Cons.IH clear_simps)
qed

lemma clearOutputChannels_simps:
  "getNumSamples (clearOutputChannels p buffer) = getNumSamples buffer"
  "numChannels (clearOutputChannels p buffer) = numChannels buffer"
  "channels (clearOutputChannels p buffer) c i =
     (if totalNumInputChannels p \<le> c \<and> c < totalNumOutputChannels p
         \<and> 0 \<le> i \<and> i < getNumSamples buffer
      then 0 else channels buffer c i)"
  by (simp_all add: clearOutputChannels_def fold_clear_size fold_clear_numChannels
      fold_clear_channels)

lemma fold_processChannel_channels:
  "channels (fold (\<lambda>channel d. processChannel d channel (cdata channel) bs cap w)
       [0..<n] db) c j =
     (if c < n then channels (processChannel db c (cdata c) bs cap w) c j
      else channels db c j)"
proof (induction n arbitrary: c j)
  case 0
  then show ?case by simp
next
  case (Suc n)
  show ?case
    by (simp add: processChannel_wrapped Suc.IH)
qed

lemma fold_processChannel_dims:
  "getNumSamples (fold (\<lambda>channel d. processChannel d channel (cdata channel) bs cap w)
       cs db) = getNumSamples db"
  "numChannels (fold (\<lambda>channel d. processChannel d channel (cdata channel) bs cap w)
       cs db) = numChannels db"
  by (induction cs arbitrary: db) (simp_all add: processChannel_dims)

lemma copyInputChannels_simps:
  "getNumSamples (copyInputChannels p buffer) = getNumSamples (delayBuffer p)"
  "numChannels (copyInputChannels p buffer) = numChannels (delayBuffer p)"
  "channels (copyInputChannels p buffer) c j =
     (if c < totalNumInputChannels p
      then channels (processChannel (delayBuffer p) c (channels buffer c)
             (getNumSamples buffer) (getNumSamples (delayBuffer p)) (writePosition p)) c j
      else channels (delayBuffer p) c j)"
  by (simp_all add: copyInputChannels_def Let_def fold_processChannel_dims
      fold_processChannel_channels getWritePointer_def)

subsection \<open>The result of one call of processBlock\<close>

text \<open>The call returns exactly when the delay buffer has samples.\<close>

lemma processBlock_fault:
  "getNumSamples (delayBuffer p) = 0 \<Longrightarrow> processBlock p buffer = Inl DivisionByZero"
  by (simp add: processBlock_def Let_def)

lemma processBlock_result:
  "getNumSamples (delayBuffer p) \<noteq> 0 \<Longrightarrow>
     processBlock p buffer =
       Inr (p\<lparr>delayBuffer := copyInputChannels p (clearOutputChannels p buffer),
              writePosition := wrap_int (writePosition p + getNumSamples buffer)
                                 smod getNumSamples (delayBuffer p)\<rparr>,
            clearOutputChannels p buffer)"
  by (simp add: processBlock_def Let_def clearOutputChannels_simps)

lemma processBlock_Inr:
  assumes "processBlock p buffer = Inr (q, out)"
  shows "getNumSamples (delayBuffer p) \<noteq> 0"
    and "q = p\<lparr>delayBuffer := copyInputChannels p (clearOutputChannels p buffer),
               writePosition := wrap_int (writePosition p + getNumSamples buffer)
                                  smod getNumSamples (delayBuffer p)\<rparr>"
    and "out = clearOutputChannels p buffer"
proof -
  show nz: "getNumSamples (delayBuffer p) \<noteq> 0"
    using assms by (auto simp: processBlock_fault)
  have "Inr (p\<lparr>delayBuffer := copyInputChannels p (clearOutputChannels p buffer),
              writePosition := wrap_int (writePosition p + getNumSamples buffer)
                                 smod getNumSamples (delayBuffer p)\<rparr>,
            clearOutputChannels p buffer) = (Inr (q, out) :: fault + Processor \<times> AudioBuffer)"
    using assms unfolding processBlock_result [OF nz] .
  then show "q = p\<lparr>delayBuffer := copyInputChannels p (clearOutputChannels p buffer),
               writePosition := wrap_int (writePosition p + getNumSamples buffer)
                                  smod getNumSamples (delayBuffer p)\<rparr>"
    and "out = clearOutputChannels p buffer"
    by blast+
qed

lemma processBlock_host_channels:
  assumes "processBlock p buffer = Inr (q, out)"
  shows "channels out c i =
       (if totalNumInputChannels p \<le> c \<and> c < totalNumOutputChannels p
           \<and> 0 \<le> i \<and> i < getNumSamples buffer
        then 0 else channels buffer c i)"
  unfolding processBlock_Inr(3) [OF assms] by (simp add: clearOutputChannels_simps)

lemma processBlock_host_dims:
  assumes "processBlock p buffer = Inr (q, out)"
  shows "getNumSamples out = getNumSamples buffer" and "numChannels out = numChannels buffer"
  unfolding processBlock_Inr(3) [OF assms] by (simp_all add: clearOutputChannels_simps)

lemma processBlock_delay_channels:
  assumes "processBlock p buffer = Inr (q, out)"
  shows "channels (delayBuffer q) c j =
       (if c < totalNumInputChannels p
        then channels (processChannel (delayBuffer p) c (channels buffer c)
               (getNumSamples buffer) (getNumSamples (delayBuffer p)) (writePosition p)) c j
        else channels (delayBuffer p) c j)"
  unfolding processBlock_Inr(2) [OF assms]
  by (simp add: copyInputChannels_simps clearOutputChannels_simps processChannel_wrapped)

lemma processBlock_delay_dims:
  assumes "processBlock p buffer = Inr (q, out)"
  shows "getNumSamples (delayBuffer q) = getNumSamples (delayBuffer p)"
    and "numChannels (delayBuffer q) = numChannels (delayBuffer p)"
  unfolding processBlock_Inr(2) [OF assms] by (simp_all add: copyInputChannels_simps)

lemma processBlock_counts:
  assumes "processBlock p buffer = Inr (q, out)"
  shows "totalNumInputChannels q = totalNumInputChannels p"
    and "totalNumOutputChannels q = totalNumOutputChannels p"
  unfolding processBlock_Inr(2) [OF assms] by simp_all

lemma processBlock_writePosition:
  assumes "processBlock p buffer = Inr (q, out)"
  shows "writePosition q =
       wrap_int (writePosition p + getNumSamples buffer) smod getNumSamples (delayBuffer p)"
  unfolding processBlock_Inr(2) [OF assms] by simp

lemma smod_nonneg: "0 \<le> a \<Longrightarrow> 0 < b \<Longrightarrow> a smod b = a mod (b::int)"
  by (simp add: signed_modulo_int_def sgn_if)

subsection \<open>The access lists are the accesses of the channel loop\<close>

lemma set_copy_writes: "set (copy_writes s n) = {j. s \<le> j \<and> j < s + n}"
  by (auto simp: copy_writes_def)

lemma set_copy_reads: "set (copy_reads s n) = {j. s \<le> j \<and> j < s + n}"
  by (auto simp: copy_reads_def)

lemma set_processChannel_writes:
  "set (processChannel_writes bs cap w) =
     (if cap > wrap_int (bs + w) then {j. w \<le> j \<and> j < w + bs}
      else {j. w \<le> j \<and> j < w + wrap_int (cap - w)}
           \<union> {j. 0 \<le> j \<and> j < wrap_int (bs - wrap_int (cap - w))})"
  by (auto simp: processChannel_writes_def Let_def set_copy_writes)

lemma set_processChannel_reads:
  "set (processChannel_reads bs cap w) =
     (if cap > wrap_int (bs + w) then {k. 0 \<le> k \<and> k < bs}
      else {k. 0 \<le> k \<and> k < wrap_int (cap - w)}
           \<union> {k. - wrap_int (cap - w) \<le> k
                  \<and> k < - wrap_int (cap - w) + wrap_int (bs - wrap_int (cap - w))})"
  by (auto simp: processChannel_reads_def Let_def set_copy_reads)

text \<open>A slot of the delay buffer that is not in the list of writes keeps its sample.\<close>

lemma processChannel_writes_only:
  "j \<notin> set (processChannel_writes bs cap w) \<Longrightarrow>
     channels (processChannel db c cd bs cap w) c j = channels db c j"
  by (auto simp: set_processChannel_writes processChannel_wrapped split: if_splits)

text \<open>The result depends on the host's memory at the offsets in the list of reads only.\<close>

lemma processChannel_reads_only:
  "\<forall>k \<in> set (processChannel_reads bs cap w). cd k = cd' k \<Longrightarrow>
     channels (processChannel db c cd bs cap w) c' j =
     channels (processChannel db c cd' bs cap w) c' j"
  by (auto simp: set_processChannel_reads processChannel_wrapped split: if_splits)

text \<open>
  With a capacity of at most \<open>2^30\<close> samples, a write position inside the delay buffer
  and a block no longer than the delay buffer, no sum or difference that the channel
  loop forms leaves the range of \<^verbatim>\<open>int\<close>.
\<close>

lemma no_int_overflow:
  assumes "0 \<le> w" and "w < cap" and "0 \<le> bs" and "bs \<le> cap" and "cap \<le> 2 ^ 30"
  shows "wrap_int (bs + w) = bs + w" and "wrap_int (cap - w) = cap - w"
    and "wrap_int (bs - (cap - w)) = bs - (cap - w)"
  using assms by (simp_all add: wrap_int_id)

text \<open>Then every write is inside the delay buffer.\<close>

lemma processChannel_writes_in_range:
  assumes "0 \<le> w" and "w < cap" and "0 \<le> bs" and "bs \<le> cap" and "cap \<le> 2 ^ 30"
    and "j \<in> set (processChannel_writes bs cap w)"
  shows "0 \<le> j \<and> j < cap"
  using assms(1-4,6)
  by (auto simp: set_processChannel_writes no_int_overflow [OF assms(1-5)] split: if_splits)

text \<open>
  When a block wraps around the end of the delay buffer, the second copy takes slot
  \<open>0\<close> of the delay buffer from the offset \<open>w - cap\<close> of the host's memory, which lies
  ahead of the block.
\<close>

lemma second_copy_source:
  assumes "0 \<le> w" and "w < cap" and "0 \<le> bs" and "bs \<le> cap" and "cap \<le> 2 ^ 30"
    and "cap < w + bs"
  shows "channels (processChannel db c cd bs cap w) c 0 = 1/10 * cd (w - cap)"
    and "w - cap < 0" and "w - cap \<in> set (processChannel_reads bs cap w)"
  using assms(1-4,6)
  by (auto simp: processChannel_wrapped set_processChannel_reads
      no_int_overflow [OF assms(1-5)])

subsection \<open>A sequence of calls\<close>

lemma processBlocks_Cons_Inr:
  assumes "processBlocks p (b # bufs) = Inr rs"
  obtains q out rest where "processBlock p b = Inr (q, out)"
    and "processBlocks q bufs = Inr rest" and "rs = (q, out) # rest"
  using assms by (auto split: sum.splits)

text \<open>Once the delay buffer has samples, every call of a sequence returns.\<close>

lemma processBlocks_returns:
  "getNumSamples (delayBuffer p) \<noteq> 0 \<Longrightarrow>
     \<exists>rs. processBlocks p bufs = Inr rs \<and> length rs = length bufs"
proof (induction bufs arbitrary: p)
  case Nil
  then show ?case by simp
next
  case (Cons b bufs)
  let ?q = "p\<lparr>delayBuffer := copyInputChannels p (clearOutputChannels p b),
               writePosition := wrap_int (writePosition p + getNumSamples b)
                                  smod getNumSamples (delayBuffer p)\<rparr>"
  have r: "processBlock p b = Inr (?q, clearOutputChannels p b)"
    using Cons.prems by (rule processBlock_result)
  have "getNumSamples (delayBuffer ?q) \<noteq> 0"
    using Cons.prems by (simp add: copyInputChannels_simps)
  then obtain rest where "processBlocks ?q bufs = Inr rest" and "length rest = length bufs"
    using Cons.IH by blast
  then show ?case
    using r by simp
qed

text \<open>
  With a capacity of at most \<open>2^30\<close>, a write position inside the delay buffer and a
  block no longer than the delay buffer, a call leaves the write position inside the
  delay buffer again.
\<close>

lemma processBlock_writePosition_mod:
  assumes "processBlock p buffer = Inr (q, out)"
    and "getNumSamples (delayBuffer p) \<le> 2 ^ 30"
    and "0 \<le> writePosition p" and "writePosition p < getNumSamples (delayBuffer p)"
    and "0 \<le> getNumSamples buffer"
    and "getNumSamples buffer \<le> getNumSamples (delayBuffer p)"
  shows "writePosition q =
      (writePosition p + getNumSamples buffer) mod getNumSamples (delayBuffer p)"
proof -
  have "wrap_int (writePosition p + getNumSamples buffer) =
      writePosition p + getNumSamples buffer"
    using assms(2-6) by (simp add: wrap_int_id)
  then show ?thesis
    using assms(3-5) by (simp add: processBlock_writePosition [OF assms(1)] smod_nonneg)
qed

lemma processBlocks_invariant:
  assumes "getNumSamples (delayBuffer p) \<le> 2 ^ 30"
    and "0 \<le> writePosition p" and "writePosition p < getNumSamples (delayBuffer p)"
    and "\<forall>b \<in> set bufs. 0 \<le> getNumSamples b
           \<and> getNumSamples b \<le> getNumSamples (delayBuffer p)"
    and "processBlocks p bufs = Inr rs" and "r \<in> set rs"
  shows "0 \<le> writePosition (fst r) \<and> writePosition (fst r) < getNumSamples (delayBuffer p)
         \<and> getNumSamples (delayBuffer (fst r)) = getNumSamples (delayBuffer p)"
  using assms
proof (induction bufs arbitrary: p rs)
  case Nil
  then show ?case by simp
next
  case (Cons b bufs)
  from Cons.prems(5) obtain q out rest where step: "processBlock p b = Inr (q, out)"
    and tail: "processBlocks q bufs = Inr rest" and rs: "rs = (q, out) # rest"
    by (rule processBlocks_Cons_Inr)
  have cap: "getNumSamples (delayBuffer q) = getNumSamples (delayBuffer p)"
    using step by (rule processBlock_delay_dims)
  have wq: "writePosition q =
      (writePosition p + getNumSamples b) mod getNumSamples (delayBuffer p)"
    using step Cons.prems(1-4) by (intro processBlock_writePosition_mod) simp_all
  have range: "0 \<le> writePosition q \<and> writePosition q < getNumSamples (delayBuffer p)"
    using Cons.prems(2,3) by (simp add: wq)
  from Cons.prems(6) rs consider "r = (q, out)" | "r \<in> set rest"
    by auto
  then show ?case
  proof cases
    case 1
    then show ?thesis using range cap by simp
  next
    case 2
    have "0 \<le> writePosition (fst r) \<and> writePosition (fst r) < getNumSamples (delayBuffer q)
         \<and> getNumSamples (delayBuffer (fst r)) = getNumSamples (delayBuffer q)"
      using Cons.prems(1,4) range cap tail 2 by (intro Cons.IH) simp_all
    then show ?thesis using cap by simp
  qed
qed

lemma blockOf_processBlock:
  "processBlock p b = Inr (q, out) \<Longrightarrow> c < totalNumInputChannels p \<Longrightarrow>
     blockOf out c = blockOf b c"
  by (simp add: blockOf_def processBlock_host_dims processBlock_host_channels)

lemma streamOf_processBlocks:
  "processBlocks p bufs = Inr rs \<Longrightarrow> c < totalNumInputChannels p \<Longrightarrow>
     streamOf (map snd rs) c = streamOf bufs c"
proof (induction bufs arbitrary: p rs)
  case Nil
  then show ?case by (simp add: streamOf_def)
next
  case (Cons b bufs)
  from Cons.prems(1) obtain q out rest where step: "processBlock p b = Inr (q, out)"
    and tail: "processBlocks q bufs = Inr rest" and rs: "rs = (q, out) # rest"
    by (rule processBlocks_Cons_Inr)
  have "c < totalNumInputChannels q"
    using Cons.prems(2) by (simp add: processBlock_counts [OF step])
  with tail have "streamOf (map snd rest) c = streamOf bufs c"
    by (rule Cons.IH)
  then show ?case
    using Cons.prems(2) by (simp add: rs streamOf_def blockOf_processBlock [OF step])
qed

subsection \<open>Evaluating the operations on the examples\<close>

lemma prepareToPlay_simps:
  "getNumSamples (delayBuffer (prepareToPlay fresh sr spb p)) = int_cast (sr * 2)"
  "numChannels (delayBuffer (prepareToPlay fresh sr spb p)) = totalNumOutputChannels p"
  "writePosition (prepareToPlay fresh sr spb p) = writePosition p"
  "totalNumInputChannels (prepareToPlay fresh sr spb p) = totalNumInputChannels p"
  "totalNumOutputChannels (prepareToPlay fresh sr spb p) = totalNumOutputChannels p"
  by (simp_all add: prepareToPlay_def setSize_def getNumSamples_def Let_def)

lemma prepareToPlay_channels:
  "channels (delayBuffer (prepareToPlay fresh sr spb p)) =
     (if getNumSamples (delayBuffer p) = int_cast (sr * 2)
         \<and> numChannels (delayBuffer p) = totalNumOutputChannels p
      then channels (delayBuffer p) else fresh)"
  by (auto simp add: prepareToPlay_def setSize_def getNumSamples_def Let_def)

lemma newProcessor_simps:
  "totalNumInputChannels (newProcessor nIn nOut) = nIn"
  "totalNumOutputChannels (newProcessor nIn nOut) = nOut"
  "writePosition (newProcessor nIn nOut) = 0"
  "getNumSamples (delayBuffer (newProcessor nIn nOut)) = 0"
  "numChannels (delayBuffer (newProcessor nIn nOut)) = 0"
  "channels (delayBuffer (newProcessor nIn nOut)) c i = 0"
  by (simp_all add: newProcessor_def getNumSamples_def)

lemma monoBuffer_simps:
  "getNumSamples (monoBufferAfter before xs) = int (length xs)"
  "numChannels (monoBufferAfter before xs) = 1"
  "channels (monoBufferAfter before xs) c i =
     (if c = 0 \<and> 0 \<le> i \<and> i < int (length xs) then xs ! nat i
      else if c = 0 \<and> - int (length before) \<le> i \<and> i < 0
      then before ! nat (i + int (length before))
      else 0)"
  by (simp_all add: monoBufferAfter_def getNumSamples_def)

lemma silentBuffer_simps:
  "getNumSamples (silentBuffer n) = n"
  "numChannels (silentBuffer n) = 1"
  "channels (silentBuffer n) c i = 0"
  by (simp_all add: silentBuffer_def getNumSamples_def silence_def)

lemma int_cast_numeral [simp]: "int_cast (numeral n) = numeral n" "int_cast 0 = 0" "int_cast 1 = 1"
  by (simp_all add: int_cast_def)

lemma after_simps:
  "processorAfter (Inr (q, out)) = q"
  "bufferAfter (Inr (q, out)) = out"
  "buffersAfter (Inr rs) = map snd rs"
  by (simp_all add: processorAfter_def bufferAfter_def buffersAfter_def)

lemmas example_simps =
  processBlock_result clearOutputChannels_simps copyInputChannels_simps
  processChannel_wrapped prepareToPlay_simps prepareToPlay_channels newProcessor_simps
  monoBuffer_def monoBuffer_simps silentBuffer_simps silence_def signed_modulo_int_def
  after_simps wrap_int_def

section \<open>The claims\<close>

subsection \<open>C1: the write into the ring\<close>

text \<open>
  Claim C1 says that the region written holds exactly the input block and that nothing
  is written at or past the capacity. Every copy is made with the gain \<^verbatim>\<open>0.1f\<close>: a
  block of one sample \<open>1\<close>, written at position \<open>0\<close> of a delay buffer of two samples
  without wrapping, leaves \<open>1/10\<close> in slot \<open>0\<close>. And the sum of line 169 is a sum of
  \<^verbatim>\<open>int\<close>s: with a capacity of \<open>2^31 - 1\<close> samples and the write position at
  \<open>2^31 - 2\<close>, reached by one block of that length, the sum for a block of two samples
  \<open>1, 2\<close> wraps, the branch without wrapping is taken, and the second sample is written
  at index \<open>2^31 - 1\<close>, the capacity.
\<close>

theorem ring_write_counterexample:
  "processBlock (prepareToPlay silence 1 512 (newProcessor 1 1)) (monoBuffer [1])
     \<noteq> Inl DivisionByZero
   \<and> getNumSamples (monoBuffer [1]) = 1
   \<and> getNumSamples (delayBuffer (prepareToPlay silence 1 512 (newProcessor 1 1))) = 2
   \<and> writePosition (prepareToPlay silence 1 512 (newProcessor 1 1)) = 0
   \<and> channels (delayBuffer (processorAfter (processBlock
        (prepareToPlay silence 1 512 (newProcessor 1 1)) (monoBuffer [1])))) 0 0
     \<noteq> channels (monoBuffer [1]) 0 0
   \<and> getNumSamples (delayBuffer
        (prepareToPlay silence (2147483647 / 2) 512 (newProcessor 1 1))) = 2147483647
   \<and> writePosition (processorAfter (processBlock
        (prepareToPlay silence (2147483647 / 2) 512 (newProcessor 1 1))
        (silentBuffer 2147483646))) = 2147483646
   \<and> channels (delayBuffer (processorAfter (processBlock
        (prepareToPlay silence (2147483647 / 2) 512 (newProcessor 1 1))
        (silentBuffer 2147483646)))) 0 2147483647 = 0
   \<and> processBlock (processorAfter (processBlock
        (prepareToPlay silence (2147483647 / 2) 512 (newProcessor 1 1))
        (silentBuffer 2147483646))) (monoBuffer [1, 2]) \<noteq> Inl DivisionByZero
   \<and> channels (delayBuffer (processorAfter (processBlock
        (processorAfter (processBlock
           (prepareToPlay silence (2147483647 / 2) 512 (newProcessor 1 1))
           (silentBuffer 2147483646)))
        (monoBuffer [1, 2])))) 0 2147483647 = 1/10 * 2"
  by (simp add: example_simps)

text \<open>
  Claim C1, amended. For a call of \<open>processBlock\<close> with block length \<open>bs\<close>, capacity
  \<open>cap\<close> and write position \<open>w\<close>, where \<open>0 < bs \<le> cap\<close>, \<open>0 \<le> w < cap\<close> and
  \<open>cap \<le> 2^30\<close>, the call returns, and for every input channel \<open>c\<close>: if
  \<open>w + bs \<le> cap\<close>, the slots \<open>[w, w + bs)\<close> hold the input block in order, each sample
  multiplied by \<open>1/10\<close>, and every other slot keeps its sample; otherwise the slots
  \<open>[w, cap)\<close> hold the first \<open>cap - w\<close> input samples in order, each multiplied by
  \<open>1/10\<close>, the second copy overwrites the slots \<open>[0, bs - (cap - w))\<close> (the samples they
  receive are the same whatever the ring held), and the slots between the two regions
  keep their samples. Nothing is written below index \<open>0\<close> or at or past index \<open>cap\<close>.
  Which samples the second copy stores is not part of this statement.
\<close>

theorem ring_write_stores_scaled_block:
  assumes "c < totalNumInputChannels p"
    and "cap = getNumSamples (delayBuffer p)" and "bs = getNumSamples buffer"
    and "w = writePosition p"
    and "ring = channels (delayBuffer p) c" and "input = channels buffer c"
    and "0 < bs" and "bs \<le> cap" and "0 \<le> w" and "w < cap" and "cap \<le> 2 ^ 30"
  shows "\<exists>q out. processBlock p buffer = Inr (q, out)
       \<and> (w + bs \<le> cap \<longrightarrow>
            (\<forall>i. 0 \<le> i \<and> i < bs \<longrightarrow> channels (delayBuffer q) c (w + i) = 1/10 * input i)
          \<and> (\<forall>j. \<not> (w \<le> j \<and> j < w + bs) \<longrightarrow> channels (delayBuffer q) c j = ring j))
       \<and> (cap < w + bs \<longrightarrow>
            (\<forall>i. 0 \<le> i \<and> i < cap - w \<longrightarrow>
               channels (delayBuffer q) c (w + i) = 1/10 * input i)
          \<and> (\<forall>db'. getNumSamples db' = cap \<longrightarrow>
                (\<exists>q' out'. processBlock (p\<lparr>delayBuffer := db'\<rparr>) buffer = Inr (q', out')
                   \<and> (\<forall>j. 0 \<le> j \<and> j < bs - (cap - w) \<longrightarrow>
                         channels (delayBuffer q') c j = channels (delayBuffer q) c j)))
          \<and> (\<forall>j. bs - (cap - w) \<le> j \<and> j < w \<longrightarrow> channels (delayBuffer q) c j = ring j))
       \<and> (\<forall>j. j < 0 \<or> cap \<le> j \<longrightarrow> channels (delayBuffer q) c j = ring j)"
proof -
  have nz: "getNumSamples (delayBuffer p) \<noteq> 0"
    using assms(2,7,8) by simp
  then obtain q out where R: "processBlock p buffer = Inr (q, out)"
    using processBlock_result by blast
  have bounds: "0 \<le> w" "0 \<le> bs" "0 \<le> cap" "cap < 2 ^ 31" "bs + w < 2 ^ 31"
    using assms(7-11) by simp_all
  note stored = processChannel_channels [OF bounds]
  have r: "\<And>j. channels (delayBuffer q) c j =
      channels (processChannel (delayBuffer p) c input bs cap w) c j"
    using assms(1-6) by (simp add: processBlock_delay_channels [OF R])
  have straight: "w + bs \<le> cap \<longrightarrow>
            (\<forall>i. 0 \<le> i \<and> i < bs \<longrightarrow> channels (delayBuffer q) c (w + i) = 1/10 * input i)
          \<and> (\<forall>j. \<not> (w \<le> j \<and> j < w + bs) \<longrightarrow> channels (delayBuffer q) c j = ring j)"
    using assms(7-10) unfolding r by (auto simp: stored assms(5))
  have first: "cap < w + bs \<longrightarrow>
      (\<forall>i. 0 \<le> i \<and> i < cap - w \<longrightarrow> channels (delayBuffer q) c (w + i) = 1/10 * input i)"
    using assms(7-10) unfolding r by (auto simp: stored)
  have between: "cap < w + bs \<longrightarrow>
      (\<forall>j. bs - (cap - w) \<le> j \<and> j < w \<longrightarrow> channels (delayBuffer q) c j = ring j)"
    using assms(7-10) unfolding r by (auto simp: stored assms(5))
  have outside: "\<forall>j. j < 0 \<or> cap \<le> j \<longrightarrow> channels (delayBuffer q) c j = ring j"
    using assms(7-10) unfolding r by (auto simp: stored assms(5))
  have second: "cap < w + bs \<longrightarrow>
      (\<forall>db'. getNumSamples db' = cap \<longrightarrow>
         (\<exists>q' out'. processBlock (p\<lparr>delayBuffer := db'\<rparr>) buffer = Inr (q', out')
            \<and> (\<forall>j. 0 \<le> j \<and> j < bs - (cap - w) \<longrightarrow>
                  channels (delayBuffer q') c j = channels (delayBuffer q) c j)))"
  proof (intro impI allI)
    fix db'
    assume wrap: "cap < w + bs" and size: "getNumSamples db' = cap"
    let ?p' = "p\<lparr>delayBuffer := db'\<rparr>"
    have "getNumSamples (delayBuffer ?p') \<noteq> 0"
      using size nz assms(2) by simp
    then obtain q' out' where R': "processBlock ?p' buffer = Inr (q', out')"
      using processBlock_result by blast
    have r': "\<And>j. channels (delayBuffer q') c j =
        channels (processChannel db' c input bs cap w) c j"
      using assms(1,3,4,6) size by (simp add: processBlock_delay_channels [OF R'])
    have "\<forall>j. 0 \<le> j \<and> j < bs - (cap - w) \<longrightarrow>
        channels (delayBuffer q') c j = channels (delayBuffer q) c j"
      using wrap unfolding r r' by (auto simp: stored)
    then show "\<exists>q' out'. processBlock ?p' buffer = Inr (q', out')
            \<and> (\<forall>j. 0 \<le> j \<and> j < bs - (cap - w) \<longrightarrow>
                  channels (delayBuffer q') c j = channels (delayBuffer q) c j)"
      using R' by blast
  qed
  show ?thesis
    using R straight first second between outside by blast
qed

theorem ring_write_stores_scaled_block_witness:
  "(0::nat) < totalNumInputChannels
       (processorAfter (processBlock (prepareToPlay silence 2 512 (newProcessor 1 1))
          (monoBuffer [5, 6])))
   \<and> 0 < getNumSamples (monoBuffer [1, 2, 3])
   \<and> getNumSamples (monoBuffer [1, 2, 3])
       \<le> getNumSamples (delayBuffer
            (processorAfter (processBlock (prepareToPlay silence 2 512 (newProcessor 1 1))
               (monoBuffer [5, 6]))))
   \<and> 0 \<le> writePosition
       (processorAfter (processBlock (prepareToPlay silence 2 512 (newProcessor 1 1))
          (monoBuffer [5, 6])))
   \<and> writePosition
       (processorAfter (processBlock (prepareToPlay silence 2 512 (newProcessor 1 1))
          (monoBuffer [5, 6])))
       < getNumSamples (delayBuffer
            (processorAfter (processBlock (prepareToPlay silence 2 512 (newProcessor 1 1))
               (monoBuffer [5, 6]))))
   \<and> getNumSamples (delayBuffer
         (processorAfter (processBlock (prepareToPlay silence 2 512 (newProcessor 1 1))
            (monoBuffer [5, 6])))) \<le> 2 ^ 30
   \<and> channels (delayBuffer (processorAfter (processBlock
        (processorAfter (processBlock (prepareToPlay silence 2 512 (newProcessor 1 1))
           (monoBuffer [5, 6])))
        (monoBuffer [1, 2, 3])))) 0 (2 + 1) = 1/10 * 2
   \<and> channels (delayBuffer (processorAfter (processBlock
        (processorAfter (processBlock (prepareToPlay silence 2 512 (newProcessor 1 1))
           (monoBuffer [5, 6])))
        (monoBuffer [1, 2, 3])))) 0 1 = 6/10
   \<and> channels (delayBuffer (processorAfter (processBlock
        (processorAfter (processBlock (prepareToPlay silence 2 512 (newProcessor 1 1))
           (monoBuffer [5, 6])))
        (monoBuffer [1, 2, 3])))) 0 4 = 0"
proof -
  let ?p = "processorAfter (processBlock (prepareToPlay silence 2 512 (newProcessor 1 1))
     (monoBuffer [5, 6]))"
  let ?b = "monoBuffer [1, 2, 3]"
  have h1: "0 < totalNumInputChannels ?p"
    by (simp add: example_simps)
  have h7: "0 < getNumSamples ?b" and h8: "getNumSamples ?b \<le> getNumSamples (delayBuffer ?p)"
    and h9: "0 \<le> writePosition ?p" and h10: "writePosition ?p < getNumSamples (delayBuffer ?p)"
    and h11: "getNumSamples (delayBuffer ?p) \<le> 2 ^ 30"
    by (simp_all add: example_simps)
  have w: "writePosition ?p = 2" and cap: "getNumSamples (delayBuffer ?p) = 4"
    and bs: "getNumSamples ?b = 3"
    by (simp_all add: example_simps)
  have old1: "channels (delayBuffer ?p) 0 1 = 6/10" and old4: "channels (delayBuffer ?p) 0 4 = 0"
    by (simp_all add: example_simps)
  have in1: "channels ?b 0 1 = 2"
    by (simp add: example_simps)
  from ring_write_stores_scaled_block [OF h1 refl refl refl refl refl h7 h8 h9 h10 h11]
  obtain q out where R: "processBlock ?p ?b = Inr (q, out)"
    and first: "\<forall>i. 0 \<le> i \<and> i < 4 - 2 \<longrightarrow>
      channels (delayBuffer q) 0 (2 + i) = 1/10 * channels ?b 0 i"
    and between: "\<forall>j. 3 - (4 - 2) \<le> j \<and> j < 2 \<longrightarrow>
      channels (delayBuffer q) 0 j = channels (delayBuffer ?p) 0 j"
    and outside: "\<forall>j. j < 0 \<or> 4 \<le> j \<longrightarrow>
      channels (delayBuffer q) 0 j = channels (delayBuffer ?p) 0 j"
    unfolding w cap bs by auto
  have q: "processorAfter (processBlock ?p ?b) = q"
    by (simp only: R after_simps)
  have a: "channels (delayBuffer q) 0 (2 + 1) = 1/10 * 2"
    using first [rule_format, of 1] in1 by simp
  have b: "channels (delayBuffer q) 0 1 = 6/10"
    using between [rule_format, of 1] old1 by simp
  have c: "channels (delayBuffer q) 0 4 = 0"
    using outside [rule_format, of 4] old4 by simp
  show ?thesis
    unfolding q using h1 h7 h8 h9 h10 h11 a b c by simp
qed

subsection \<open>C2: the output formula\<close>

text \<open>
  Claim C2 says that the output is \<open>dryMix * input + wetMix * delayed\<close>. The source has
  no mix and no delay length, and it never reads the delay buffer. With \<open>dryMix = 0\<close>,
  \<open>wetMix = 1\<close> and a delay of one sample, on a block of one sample \<open>1\<close> and a silent
  delay buffer of two samples, the formula gives \<open>0\<close>; the output of the code is \<open>1\<close>.
\<close>

theorem output_mix_counterexample:
  "processBlock (prepareToPlay silence 1 512 (newProcessor 1 1)) (monoBuffer [1])
     \<noteq> Inl DivisionByZero
   \<and> channels (bufferAfter (processBlock (prepareToPlay silence 1 512 (newProcessor 1 1))
        (monoBuffer [1]))) 0 0
     \<noteq> spec_output 0 1 (channels (monoBuffer [1]) 0 0)
         (spec_delayed
            (channels (delayBuffer (processorAfter (processBlock
               (prepareToPlay silence 1 512 (newProcessor 1 1)) (monoBuffer [1])))) 0)
            (writePosition (prepareToPlay silence 1 512 (newProcessor 1 1))) 1
            (getNumSamples (delayBuffer (prepareToPlay silence 1 512 (newProcessor 1 1)))) 0)"
  by (simp add: example_simps spec_output_def spec_delayed_def spec_readCursor_def)

text \<open>
  Claim C2, amended. A call of \<open>processBlock\<close> on a delay buffer that has samples
  returns, and on every input channel each output sample is the formula of the
  specification with \<open>dryMix = 1\<close> and \<open>wetMix = 0\<close>, whatever the delay length: the
  output sample is the input sample.
\<close>

theorem output_is_dry_input_only:
  assumes "c < totalNumInputChannels p" and "getNumSamples (delayBuffer p) \<noteq> 0"
  shows "\<exists>q out. processBlock p buffer = Inr (q, out)
       \<and> (\<forall>n delayLength. channels out c n =
             spec_output 1 0 (channels buffer c n)
               (spec_delayed (channels (delayBuffer q) c) (writePosition p) delayLength
                  (getNumSamples (delayBuffer p)) n))"
proof -
  obtain q out where R: "processBlock p buffer = Inr (q, out)"
    using processBlock_result [OF assms(2)] by blast
  have "\<forall>n delayLength. channels out c n =
             spec_output 1 0 (channels buffer c n)
               (spec_delayed (channels (delayBuffer q) c) (writePosition p) delayLength
                  (getNumSamples (delayBuffer p)) n)"
    using assms(1) by (simp add: processBlock_host_channels [OF R] spec_output_def)
  then show ?thesis using R by blast
qed

theorem output_is_dry_input_only_witness:
  "(0::nat) < totalNumInputChannels (prepareToPlay silence 1 512 (newProcessor 1 1))
   \<and> getNumSamples (delayBuffer (prepareToPlay silence 1 512 (newProcessor 1 1))) \<noteq> 0
   \<and> channels (bufferAfter (processBlock (prepareToPlay silence 1 512 (newProcessor 1 1))
        (monoBuffer [1]))) 0 0 = 1"
proof -
  let ?p = "prepareToPlay silence 1 512 (newProcessor 1 1)"
  have h1: "0 < totalNumInputChannels ?p" and h2: "getNumSamples (delayBuffer ?p) \<noteq> 0"
    by (simp_all add: example_simps)
  from output_is_dry_input_only [OF h1 h2, of "monoBuffer [1]"]
  obtain q out where R: "processBlock ?p (monoBuffer [1]) = Inr (q, out)"
    and dry: "\<forall>n delayLength. channels out 0 n =
             spec_output 1 0 (channels (monoBuffer [1]) 0 n)
               (spec_delayed (channels (delayBuffer q) 0) (writePosition ?p) delayLength
                  (getNumSamples (delayBuffer ?p)) n)"
    by blast
  have out: "bufferAfter (processBlock ?p (monoBuffer [1])) = out"
    by (simp only: R after_simps)
  have "channels out 0 0 = 1"
    using dry [rule_format, of 0 1] by (simp add: spec_output_def monoBuffer_def monoBuffer_simps)
  then show ?thesis
    unfolding out using h1 h2 by simp
qed

subsection \<open>C3: the indices read and written\<close>

text \<open>
  Claim C3 holds for the writes (lemma \<open>processChannel_writes_in_range\<close>) and fails
  for the reads: the second copy of the wrapping branch takes its source at
  \<^verbatim>\<open>channelData - numSamplesToEnd\<close> (lemma \<open>second_copy_source\<close>). With a delay buffer
  of four samples, the write position at \<open>2\<close> and a block of three samples \<open>1, 2, 3\<close>
  that has \<open>7, 8\<close> in the memory ahead of it, the offsets read are \<open>0, 1, -2\<close>, and
  slot \<open>0\<close> of the delay buffer receives \<open>1/10 * 7\<close>, from offset \<open>-2\<close>, where the
  rest of the block (\<open>3\<close>, at offset \<open>2\<close>) belongs.
\<close>

theorem second_copy_reads_before_block:
  "processBlock (prepareToPlay silence 2 512 (newProcessor 1 1)) (monoBuffer [5, 6])
     \<noteq> Inl DivisionByZero
   \<and> writePosition (processorAfter (processBlock (prepareToPlay silence 2 512 (newProcessor 1 1))
        (monoBuffer [5, 6]))) = 2
   \<and> getNumSamples (delayBuffer (processorAfter (processBlock
        (prepareToPlay silence 2 512 (newProcessor 1 1)) (monoBuffer [5, 6])))) = 4
   \<and> getNumSamples (monoBufferAfter [7, 8] [1, 2, 3]) = 3
   \<and> processChannel_reads 3 4 2 = [0, 1, - 2]
   \<and> processBlock (processorAfter (processBlock (prepareToPlay silence 2 512 (newProcessor 1 1))
        (monoBuffer [5, 6]))) (monoBufferAfter [7, 8] [1, 2, 3]) \<noteq> Inl DivisionByZero
   \<and> channels (delayBuffer (processorAfter (processBlock
        (processorAfter (processBlock (prepareToPlay silence 2 512 (newProcessor 1 1))
           (monoBuffer [5, 6])))
        (monoBufferAfter [7, 8] [1, 2, 3])))) 0 0 = 1/10 * 7
   \<and> channels (monoBufferAfter [7, 8] [1, 2, 3]) 0 (- 2) = 7
   \<and> channels (monoBufferAfter [7, 8] [1, 2, 3]) 0 2 = 3"
proof -
  have reads: "processChannel_reads 3 4 2 = [0, 1, - 2]"
    by (simp add: processChannel_reads_def copy_reads_def Let_def upto.simps wrap_int_def)
  show ?thesis
    unfolding reads by (simp add: example_simps)
qed

subsection \<open>C4: the write position\<close>

text \<open>
  Claim C4 says that the write position advances by the block length modulo the
  capacity and stays in \<open>[0, capacity)\<close>. The sum of line 198 is a sum of \<^verbatim>\<open>int\<close>s: with
  a capacity of \<open>2^31 - 1\<close> samples, one block of \<open>2^31 - 2\<close> samples takes the write
  position to \<open>2^31 - 2\<close>, and a block of two samples then takes it to \<open>-1\<close>, where
  \<open>(2^31 - 2 + 2) mod (2^31 - 1)\<close> is \<open>1\<close>.
\<close>

theorem writePosition_overflow_counterexample:
  "getNumSamples (delayBuffer
     (prepareToPlay silence (2147483647 / 2) 512 (newProcessor 1 1))) = 2147483647
   \<and> writePosition (prepareToPlay silence (2147483647 / 2) 512 (newProcessor 1 1)) = 0
   \<and> processBlock (prepareToPlay silence (2147483647 / 2) 512 (newProcessor 1 1))
        (silentBuffer 2147483646) \<noteq> Inl DivisionByZero
   \<and> writePosition (processorAfter (processBlock
        (prepareToPlay silence (2147483647 / 2) 512 (newProcessor 1 1))
        (silentBuffer 2147483646))) = 2147483646
   \<and> getNumSamples (monoBuffer [1, 2]) = 2
   \<and> processBlock (processorAfter (processBlock
        (prepareToPlay silence (2147483647 / 2) 512 (newProcessor 1 1))
        (silentBuffer 2147483646))) (monoBuffer [1, 2]) \<noteq> Inl DivisionByZero
   \<and> writePosition (processorAfter (processBlock
        (processorAfter (processBlock
           (prepareToPlay silence (2147483647 / 2) 512 (newProcessor 1 1))
           (silentBuffer 2147483646)))
        (monoBuffer [1, 2]))) = - 1
   \<and> (2147483646 + 2) mod 2147483647 = (1::int)"
  by (simp add: example_simps)

text \<open>
  Claim C4, amended. With a delay buffer of at most \<open>2^30\<close> samples, a write position in
  \<open>[0, capacity)\<close> and block lengths between \<open>0\<close> and the capacity: a call of
  \<open>processBlock\<close> returns and advances the one write position of the processor by the
  block length modulo the capacity; every input channel is written at that same
  position; and every call of a sequence of calls returns, with the write position in
  \<open>[0, capacity)\<close> after each.
\<close>

theorem writePosition_advances_modulo_capacity:
  assumes "getNumSamples (delayBuffer p) \<le> 2 ^ 30"
    and "0 \<le> writePosition p" and "writePosition p < getNumSamples (delayBuffer p)"
    and "0 \<le> getNumSamples buffer"
    and "getNumSamples buffer \<le> getNumSamples (delayBuffer p)"
    and "\<forall>b \<in> set bufs. 0 \<le> getNumSamples b
           \<and> getNumSamples b \<le> getNumSamples (delayBuffer p)"
  shows "(\<exists>q out. processBlock p buffer = Inr (q, out)
          \<and> writePosition q =
              (writePosition p + getNumSamples buffer) mod getNumSamples (delayBuffer p)
          \<and> (\<forall>c < totalNumInputChannels p. \<forall>j.
                channels (delayBuffer q) c j =
                channels (processChannel (delayBuffer p) c (channels buffer c)
                  (getNumSamples buffer) (getNumSamples (delayBuffer p)) (writePosition p)) c j))
       \<and> (\<exists>rs. processBlocks p bufs = Inr rs \<and> length rs = length bufs
          \<and> (\<forall>r \<in> set rs. 0 \<le> writePosition (fst r)
                \<and> writePosition (fst r) < getNumSamples (delayBuffer p)))"
proof (intro conjI)
  have nz: "getNumSamples (delayBuffer p) \<noteq> 0"
    using assms(2,3) by simp
  obtain q out where R: "processBlock p buffer = Inr (q, out)"
    using processBlock_result [OF nz] by blast
  have "writePosition q =
      (writePosition p + getNumSamples buffer) mod getNumSamples (delayBuffer p)"
    using R assms(1-5) by (rule processBlock_writePosition_mod)
  moreover have "\<forall>c < totalNumInputChannels p. \<forall>j.
                channels (delayBuffer q) c j =
                channels (processChannel (delayBuffer p) c (channels buffer c)
                  (getNumSamples buffer) (getNumSamples (delayBuffer p)) (writePosition p)) c j"
    by (simp add: processBlock_delay_channels [OF R])
  ultimately show "\<exists>q out. processBlock p buffer = Inr (q, out)
          \<and> writePosition q =
              (writePosition p + getNumSamples buffer) mod getNumSamples (delayBuffer p)
          \<and> (\<forall>c < totalNumInputChannels p. \<forall>j.
                channels (delayBuffer q) c j =
                channels (processChannel (delayBuffer p) c (channels buffer c)
                  (getNumSamples buffer) (getNumSamples (delayBuffer p)) (writePosition p)) c j)"
    using R by blast
  obtain rs where S: "processBlocks p bufs = Inr rs" and len: "length rs = length bufs"
    using processBlocks_returns [OF nz] by blast
  have "\<forall>r \<in> set rs. 0 \<le> writePosition (fst r)
                \<and> writePosition (fst r) < getNumSamples (delayBuffer p)"
    using processBlocks_invariant [OF assms(1-3,6) S] by blast
  then show "\<exists>rs. processBlocks p bufs = Inr rs \<and> length rs = length bufs
          \<and> (\<forall>r \<in> set rs. 0 \<le> writePosition (fst r)
                \<and> writePosition (fst r) < getNumSamples (delayBuffer p))"
    using S len by blast
qed

theorem writePosition_advances_modulo_capacity_witness:
  "getNumSamples (delayBuffer (prepareToPlay silence 2 512 (newProcessor 1 1))) \<le> 2 ^ 30
   \<and> 0 \<le> writePosition (prepareToPlay silence 2 512 (newProcessor 1 1))
   \<and> writePosition (prepareToPlay silence 2 512 (newProcessor 1 1))
       < getNumSamples (delayBuffer (prepareToPlay silence 2 512 (newProcessor 1 1)))
   \<and> 0 \<le> getNumSamples (monoBuffer [1, 2, 3])
   \<and> getNumSamples (monoBuffer [1, 2, 3])
       \<le> getNumSamples (delayBuffer (prepareToPlay silence 2 512 (newProcessor 1 1)))
   \<and> 0 \<le> getNumSamples (monoBuffer [4, 5, 6])
   \<and> getNumSamples (monoBuffer [4, 5, 6])
       \<le> getNumSamples (delayBuffer (prepareToPlay silence 2 512 (newProcessor 1 1)))
   \<and> writePosition (processorAfter (processBlock (prepareToPlay silence 2 512 (newProcessor 1 1))
        (monoBuffer [1, 2, 3]))) = 3
   \<and> length (projr (processBlocks (prepareToPlay silence 2 512 (newProcessor 1 1))
        [monoBuffer [1, 2, 3], monoBuffer [4, 5, 6]])) = 2
   \<and> writePosition (fst (projr (processBlocks (prepareToPlay silence 2 512 (newProcessor 1 1))
        [monoBuffer [1, 2, 3], monoBuffer [4, 5, 6]]) ! 1)) < 4"
proof -
  let ?p = "prepareToPlay silence 2 512 (newProcessor 1 1)"
  let ?b = "monoBuffer [1, 2, 3]"
  let ?b' = "monoBuffer [4, 5, 6]"
  have h1: "getNumSamples (delayBuffer ?p) \<le> 2 ^ 30" and h2: "0 \<le> writePosition ?p"
    and h3: "writePosition ?p < getNumSamples (delayBuffer ?p)"
    and h4: "0 \<le> getNumSamples ?b" and h5: "getNumSamples ?b \<le> getNumSamples (delayBuffer ?p)"
    and h4': "0 \<le> getNumSamples ?b'"
    and h5': "getNumSamples ?b' \<le> getNumSamples (delayBuffer ?p)"
    by (simp_all add: example_simps)
  have h6: "\<forall>b \<in> set [?b, ?b']. 0 \<le> getNumSamples b
      \<and> getNumSamples b \<le> getNumSamples (delayBuffer ?p)"
    using h4 h5 h4' h5' by simp
  have cap: "getNumSamples (delayBuffer ?p) = 4" and w: "writePosition ?p = 0"
    and bs: "getNumSamples ?b = 3"
    by (simp_all add: example_simps)
  from writePosition_advances_modulo_capacity [OF h1 h2 h3 h4 h5 h6]
  obtain q out rs where R: "processBlock ?p ?b = Inr (q, out)"
    and wq: "writePosition q = (0 + 3) mod 4"
    and S: "processBlocks ?p [?b, ?b'] = Inr rs" and len: "length rs = length [?b, ?b']"
    and range: "\<forall>r \<in> set rs. 0 \<le> writePosition (fst r) \<and> writePosition (fst r) < 4"
    unfolding cap w bs by blast
  have q: "processorAfter (processBlock ?p ?b) = q"
    by (simp only: R after_simps)
  have rs: "projr (processBlocks ?p [?b, ?b']) = rs"
    by (simp only: S sum.sel)
  have "rs ! 1 \<in> set rs"
    using len by simp
  then have "writePosition (fst (rs ! 1)) < 4"
    using range by blast
  then show ?thesis
    unfolding q rs using h1 h2 h3 h4 h5 h4' h5' wq len by simp
qed

subsection \<open>C5: what prepareToPlay establishes\<close>




subsection \<open>C6: an impulse through the processor\<close>

text \<open>
  Claim C6 says that an impulse at index \<open>k\<close> comes out at index \<open>k + d\<close> and nowhere
  else. The source has no delay length \<open>d\<close>; the impulse at index \<open>0\<close> of a stream of
  two blocks of one sample comes out at index \<open>0\<close>, and index \<open>0 + 1\<close> does not hold
  \<open>1\<close>.
\<close>

theorem impulse_delay_counterexample:
  "processBlocks (prepareToPlay silence 2 512 (newProcessor 1 1))
     [monoBuffer [1], monoBuffer [0]] \<noteq> Inl DivisionByZero
   \<and> streamOf [monoBuffer [1], monoBuffer [0]] 0 = impulse 2 0
   \<and> streamOf (buffersAfter (processBlocks (prepareToPlay silence 2 512 (newProcessor 1 1))
        [monoBuffer [1], monoBuffer [0]])) 0 ! (0 + 1) \<noteq> 1
   \<and> streamOf (buffersAfter (processBlocks (prepareToPlay silence 2 512 (newProcessor 1 1))
        [monoBuffer [1], monoBuffer [0]])) 0 ! 0 = 1"
proof -
  let ?p = "prepareToPlay silence 2 512 (newProcessor 1 1)"
  let ?bufs = "[monoBuffer [1], monoBuffer [0]]"
  have s: "streamOf ?bufs 0 = [1, 0]"
    by (simp add: streamOf_def blockOf_def monoBuffer_def monoBuffer_simps)
  have i: "impulse 2 0 = [1, 0]"
    by (simp add: impulse_def upt_rec)
  have "getNumSamples (delayBuffer ?p) \<noteq> 0"
    by (simp add: example_simps)
  then obtain rs where R: "processBlocks ?p ?bufs = Inr rs"
    using processBlocks_returns by blast
  have "streamOf (map snd rs) 0 = streamOf ?bufs 0"
    using R by (rule streamOf_processBlocks) (simp add: example_simps)
  then have "streamOf (map snd rs) 0 = [1, 0]"
    using s by simp
  then show ?thesis
    unfolding R after_simps using s i by simp
qed

text \<open>
  Claim C6, amended. On a delay buffer that has samples, for every sequence of blocks
  and every input channel, all calls return, and when the input stream is the impulse
  at index \<open>k\<close> the concatenated output stream is that impulse: it holds \<open>1\<close> at index
  \<open>k\<close> and \<open>0\<close> everywhere else.
\<close>

theorem impulse_stays_in_place:
  assumes "c < totalNumInputChannels p" and "getNumSamples (delayBuffer p) \<noteq> 0"
    and "streamOf bufs c = impulse len k"
  shows "\<exists>rs. processBlocks p bufs = Inr rs
       \<and> streamOf (map snd rs) c = impulse len k
       \<and> length (streamOf (map snd rs) c) = len
       \<and> (\<forall>i < len. streamOf (map snd rs) c ! i = (if i = k then 1 else 0))"
proof -
  obtain rs where R: "processBlocks p bufs = Inr rs"
    using processBlocks_returns [OF assms(2)] by blast
  have "streamOf (map snd rs) c = impulse len k"
    using streamOf_processBlocks [OF R assms(1)] assms(3) by simp
  then show ?thesis
    using R by (simp add: impulse_def)
qed

theorem impulse_stays_in_place_witness:
  "(0::nat) < totalNumInputChannels (prepareToPlay silence 2 512 (newProcessor 1 1))
   \<and> getNumSamples (delayBuffer (prepareToPlay silence 2 512 (newProcessor 1 1))) \<noteq> 0
   \<and> streamOf [monoBuffer [0, 1], monoBuffer [0]] 0 = impulse 3 1
   \<and> streamOf (buffersAfter (processBlocks (prepareToPlay silence 2 512 (newProcessor 1 1))
        [monoBuffer [0, 1], monoBuffer [0]])) 0 = [0, 1, 0]"
proof -
  let ?p = "prepareToPlay silence 2 512 (newProcessor 1 1)"
  let ?bufs = "[monoBuffer [0, 1], monoBuffer [0]]"
  have h1: "0 < totalNumInputChannels ?p" and h2: "getNumSamples (delayBuffer ?p) \<noteq> 0"
    by (simp_all add: example_simps)
  have i: "impulse 3 1 = [0, 1, 0]"
    by (simp add: impulse_def upt_rec)
  have "streamOf ?bufs 0 = [0, 1, 0]"
    by (simp add: streamOf_def blockOf_def monoBuffer_def monoBuffer_simps upt_rec)
  then have s: "streamOf ?bufs 0 = impulse 3 1"
    by (simp only: i)
  from impulse_stays_in_place [OF h1 h2 s]
  obtain rs where R: "processBlocks ?p ?bufs = Inr rs"
    and out: "streamOf (map snd rs) 0 = impulse 3 1"
    by blast
  show ?thesis
    unfolding R after_simps using h1 h2 s out i by simp
qed

subsection \<open>C8: rejected configurations\<close>

text \<open>
  Claim C8 says that an invalid configuration is rejected and leaves the state as it
  was. \<open>prepareToPlay\<close> returns nothing and checks nothing: called with the sample rate
  \<open>0\<close> on a processor whose delay buffer has two samples, it leaves a delay buffer of
  no samples, so the state has changed, and the next call of \<open>processBlock\<close> divides by
  zero.
\<close>

theorem no_configuration_is_rejected_counterexample:
  "getNumSamples (delayBuffer (prepareToPlay silence 1 512 (newProcessor 1 1))) = 2
   \<and> getNumSamples (delayBuffer
        (prepareToPlay silence 0 512 (prepareToPlay silence 1 512 (newProcessor 1 1)))) = 0
   \<and> prepareToPlay silence 0 512 (prepareToPlay silence 1 512 (newProcessor 1 1))
       \<noteq> prepareToPlay silence 1 512 (newProcessor 1 1)
   \<and> processBlock
        (prepareToPlay silence 0 512 (prepareToPlay silence 1 512 (newProcessor 1 1)))
        (monoBuffer [1]) = Inl DivisionByZero"
proof -
  let ?p = "prepareToPlay silence 1 512 (newProcessor 1 1)"
  have a: "getNumSamples (delayBuffer ?p) = 2"
    by (simp add: prepareToPlay_simps)
  have b: "getNumSamples (delayBuffer (prepareToPlay silence 0 512 ?p)) = 0"
    by (simp add: prepareToPlay_simps)
  have c: "prepareToPlay silence 0 512 ?p \<noteq> ?p"
  proof
    assume "prepareToPlay silence 0 512 ?p = ?p"
    then have "getNumSamples (delayBuffer (prepareToPlay silence 0 512 ?p))
        = getNumSamples (delayBuffer ?p)"
      by simp
    then show False
      by (simp add: prepareToPlay_simps)
  qed
  have d: "processBlock (prepareToPlay silence 0 512 ?p) (monoBuffer [1]) = Inl DivisionByZero"
    using b by (rule processBlock_fault)
  show ?thesis using a b c d by simp
qed

text \<open>
  Claim C8, amended. No configuration is rejected: whenever the capacity
  \<open>\<lfloor>sampleRate * 2\<rfloor>\<close> that a call of \<open>prepareToPlay\<close> asks for differs from the present
  one, the call installs it and so changes the state, whatever the sample rate for
  which the cast is defined; and the block size passed to the call has no effect on
  the result.
\<close>

theorem prepareToPlay_accepts_every_configuration:
  assumes "0 \<le> sampleRate" and "sampleRate * 2 < 2 ^ 31"
    and "\<lfloor>sampleRate * 2\<rfloor> \<noteq> getNumSamples (delayBuffer p)"
  shows "getNumSamples (delayBuffer (prepareToPlay fresh sampleRate samplesPerBlock p))
           = \<lfloor>sampleRate * 2\<rfloor>
       \<and> prepareToPlay fresh sampleRate samplesPerBlock p \<noteq> p
       \<and> prepareToPlay fresh sampleRate samplesPerBlock p
           = prepareToPlay fresh sampleRate samplesPerBlock' p"
proof (intro conjI)
  show size: "getNumSamples (delayBuffer (prepareToPlay fresh sampleRate samplesPerBlock p))
           = \<lfloor>sampleRate * 2\<rfloor>"
    using assms(1) by (simp add: prepareToPlay_simps int_cast_def)
  show "prepareToPlay fresh sampleRate samplesPerBlock p \<noteq> p"
  proof
    assume "prepareToPlay fresh sampleRate samplesPerBlock p = p"
    then have "getNumSamples (delayBuffer (prepareToPlay fresh sampleRate samplesPerBlock p))
        = getNumSamples (delayBuffer p)"
      by simp
    then show False using assms(3) size by simp
  qed
  show "prepareToPlay fresh sampleRate samplesPerBlock p
           = prepareToPlay fresh sampleRate samplesPerBlock' p"
    by (simp add: prepareToPlay_def)
qed

theorem prepareToPlay_accepts_every_configuration_witness:
  "(0::real) \<le> 0 \<and> (0::real) * 2 < 2 ^ 31
   \<and> \<lfloor>(0::real) * 2\<rfloor> \<noteq> getNumSamples (delayBuffer (prepareToPlay silence 1 512 (newProcessor 1 1)))
   \<and> getNumSamples (delayBuffer
        (prepareToPlay silence 0 512 (prepareToPlay silence 1 512 (newProcessor 1 1))))
       = 0"
proof -
  let ?p = "prepareToPlay silence 1 512 (newProcessor 1 1)"
  have h1: "(0::real) \<le> 0" and h2: "(0::real) * 2 < 2 ^ 31"
    by simp_all
  have h3: "\<lfloor>(0::real) * 2\<rfloor> \<noteq> getNumSamples (delayBuffer ?p)"
    by (simp add: prepareToPlay_simps)
  show ?thesis
    using h1 h2 h3 prepareToPlay_accepts_every_configuration [OF h1 h2 h3, of silence 512 512]
    by simp
qed

subsection \<open>C9: the gain of the copies\<close>

text \<open>
  Claim C9 says that the gain of a copy ramps in and out over about a tenth of the
  block. The two arguments \<^verbatim>\<open>0.1f, 0.1f\<close> are the start gain and the end gain, so the
  gain is \<open>1/10\<close> throughout: of a block of twenty samples \<open>1\<close>, the first, the
  eleventh and the last are all stored as \<open>1/10\<close>.
\<close>

theorem no_ramp_counterexample:
  "processBlock (prepareToPlay silence 20 512 (newProcessor 1 1)) (monoBuffer (replicate 20 1))
     \<noteq> Inl DivisionByZero
   \<and> getNumSamples (monoBuffer (replicate 20 1)) = 20
   \<and> channels (monoBuffer (replicate 20 1)) 0 0 = 1
   \<and> channels (monoBuffer (replicate 20 1)) 0 10 = 1
   \<and> channels (monoBuffer (replicate 20 1)) 0 19 = 1
   \<and> channels (delayBuffer (processorAfter (processBlock
        (prepareToPlay silence 20 512 (newProcessor 1 1)) (monoBuffer (replicate 20 1))))) 0 0
      = 1/10
   \<and> channels (delayBuffer (processorAfter (processBlock
        (prepareToPlay silence 20 512 (newProcessor 1 1)) (monoBuffer (replicate 20 1))))) 0 10
      = 1/10
   \<and> channels (delayBuffer (processorAfter (processBlock
        (prepareToPlay silence 20 512 (newProcessor 1 1)) (monoBuffer (replicate 20 1))))) 0 19
      = 1/10"
  by (simp add: example_simps)

text \<open>
  Claim C9, amended. Every sample that the channel loop writes into the delay buffer
  is a sample read through \<open>channelData\<close> multiplied by the constant gain \<open>1/10\<close>, and
  it replaces the sample the slot held. For \<open>0 \<le> bs \<le> cap\<close> and \<open>0 \<le> w < cap\<close>, the
  slot \<open>w + i\<close> receives \<open>1/10\<close> times input sample \<open>i\<close>, for every \<open>i\<close> below both
  \<open>bs\<close> and \<open>cap - w\<close>.
\<close>

theorem copies_scale_by_constant_gain:
  "(\<forall>j \<in> set (processChannel_writes bs cap w).
      \<exists>k \<in> set (processChannel_reads bs cap w).
        channels (processChannel db c cd bs cap w) c j = 1/10 * cd k)
   \<and> (0 \<le> w \<and> w < cap \<and> 0 \<le> bs \<and> bs \<le> cap \<longrightarrow>
        (\<forall>i. 0 \<le> i \<and> i < min bs (cap - w) \<longrightarrow>
           channels (processChannel db c cd bs cap w) c (w + i) = 1/10 * cd i))"
proof (intro conjI ballI impI allI)
  fix j assume j: "j \<in> set (processChannel_writes bs cap w)"
  define k where "k = (if cap > wrap_int (bs + w) then j - w
                       else if 0 \<le> j \<and> j < wrap_int (bs - wrap_int (cap - w))
                       then j - wrap_int (cap - w)
                       else j - w)"
  have "k \<in> set (processChannel_reads bs cap w)"
    using j
    by (auto simp: k_def set_processChannel_writes set_processChannel_reads split: if_splits)
  moreover have "channels (processChannel db c cd bs cap w) c j = 1/10 * cd k"
    using j
    by (auto simp: k_def set_processChannel_writes processChannel_wrapped split: if_splits)
  ultimately show "\<exists>k \<in> set (processChannel_reads bs cap w).
        channels (processChannel db c cd bs cap w) c j = 1/10 * cd k"
    by blast
next
  fix i
  assume range: "0 \<le> w \<and> w < cap \<and> 0 \<le> bs \<and> bs \<le> cap"
    and i: "0 \<le> i \<and> i < min bs (cap - w)"
  show "channels (processChannel db c cd bs cap w) c (w + i) = 1/10 * cd i"
  proof (cases "cap > wrap_int (bs + w)")
    case True
    then show ?thesis
      using i by (simp add: processChannel_wrapped)
  next
    case False
    have small: "cap < 2 ^ 31"
      using False wrap_int_range(2) [of "bs + w"] by simp
    have nonneg: "0 \<le> wrap_int (bs + w)"
      using False range by simp
    have lo: "0 \<le> bs + w" and hi: "bs + w < 2 ^ 32"
      using range small by simp_all
    have sum: "bs + w < 2 ^ 31"
      using lo hi nonneg by (rule wrap_int_nonneg(2))
    have "channels (processChannel db c cd bs cap w) c (w + i) =
        (if cap > bs + w
         then (if w \<le> w + i \<and> w + i < w + bs then 1/10 * cd (w + i - w)
               else channels db c (w + i))
         else if 0 \<le> w + i \<and> w + i < bs - (cap - w) then 1/10 * cd (w + i - (cap - w))
         else if w \<le> w + i \<and> w + i < cap then 1/10 * cd (w + i - w)
         else channels db c (w + i))"
      using range small sum by (simp add: processChannel_channels)
    then show ?thesis
      using range i by auto
  qed
qed

theorem copies_scale_by_constant_gain_witness:
  "0 \<le> (0::int) \<and> (0::int) < 4 \<and> (0::int) \<le> 3 \<and> (3::int) \<le> 4
   \<and> channels (processChannel (delayBuffer (newProcessor 1 1)) 0
        (channels (monoBuffer [1, 2, 3]) 0) 3 4 0) 0 (0 + 2) = 1/10 * 3"
proof -
  have h: "0 \<le> (0::int) \<and> (0::int) < 4 \<and> (0::int) \<le> 3 \<and> (3::int) \<le> 4"
    by simp
  have "channels (processChannel (delayBuffer (newProcessor 1 1)) 0
        (channels (monoBuffer [1, 2, 3]) 0) 3 4 0) 0 (0 + 2)
      = 1/10 * channels (monoBuffer [1, 2, 3]) 0 2"
    using copies_scale_by_constant_gain
      [of 3 4 0 "delayBuffer (newProcessor 1 1)" 0 "channels (monoBuffer [1, 2, 3]) 0"] h
    by simp
  then show ?thesis
    by (simp add: monoBuffer_def monoBuffer_simps)
qed

subsection \<open>C10: the host's buffer\<close>

text \<open>
  Claim C10. A call of \<open>processBlock\<close> on a delay buffer that has samples returns.
  Every call that returns leaves every input channel of the host's buffer as it
  arrived and has cleared the samples \<open>[0, getNumSamples)\<close> of every channel from the
  input channel count up to the output channel count; and the host's buffer it leaves
  is the same for every delay buffer and every write position the processor may have.
\<close>

theorem processBlock_leaves_input_channels:
  "(getNumSamples (delayBuffer p) \<noteq> 0 \<longrightarrow> (\<exists>q out. processBlock p buffer = Inr (q, out)))
   \<and> (\<forall>q out. processBlock p buffer = Inr (q, out) \<longrightarrow>
        (\<forall>c < totalNumInputChannels p. channels out c = channels buffer c)
      \<and> (\<forall>c. totalNumInputChannels p \<le> c \<and> c < totalNumOutputChannels p \<longrightarrow>
            (\<forall>i. 0 \<le> i \<and> i < getNumSamples buffer \<longrightarrow> channels out c i = 0))
      \<and> (\<forall>db w. getNumSamples db \<noteq> 0 \<longrightarrow>
            (\<exists>q'. processBlock (p\<lparr>delayBuffer := db, writePosition := w\<rparr>) buffer
                    = Inr (q', out))))"
proof (intro conjI allI impI)
  assume "getNumSamples (delayBuffer p) \<noteq> 0"
  then show "\<exists>q out. processBlock p buffer = Inr (q, out)"
    using processBlock_result by blast
next
  fix q out c
  assume R: "processBlock p buffer = Inr (q, out)" and "c < totalNumInputChannels p"
  then show "channels out c = channels buffer c"
    by (intro ext) (simp add: processBlock_host_channels [OF R])
next
  fix q out c i
  assume R: "processBlock p buffer = Inr (q, out)"
    and "totalNumInputChannels p \<le> c \<and> c < totalNumOutputChannels p"
    and "0 \<le> i \<and> i < getNumSamples buffer"
  then show "channels out c i = 0"
    by (simp add: processBlock_host_channels [OF R])
next
  fix q out db w
  assume R: "processBlock p buffer = Inr (q, out)" and nz: "getNumSamples db \<noteq> 0"
  have out: "out = clearOutputChannels p buffer"
    using R by (rule processBlock_Inr(3))
  have "clearOutputChannels (p\<lparr>delayBuffer := db, writePosition := w\<rparr>) buffer
      = clearOutputChannels p buffer"
    by (simp add: clearOutputChannels_def)
  then show "\<exists>q'. processBlock (p\<lparr>delayBuffer := db, writePosition := w\<rparr>) buffer = Inr (q', out)"
    using nz out by (simp add: processBlock_result)
qed

theorem processBlock_leaves_input_channels_witness:
  "getNumSamples (delayBuffer (prepareToPlay silence 2 512 (newProcessor 1 2))) \<noteq> 0
   \<and> channels (bufferAfter (processBlock (prepareToPlay silence 2 512 (newProcessor 1 2))
        (stereoBuffer [3, 4] [5, 6]))) 0 1 = 4
   \<and> channels (bufferAfter (processBlock (prepareToPlay silence 2 512 (newProcessor 1 2))
        (stereoBuffer [3, 4] [5, 6]))) 1 1 = 0"
proof -
  let ?p = "prepareToPlay silence 2 512 (newProcessor 1 2)"
  let ?b = "stereoBuffer [3, 4] [5, 6]"
  note frame = processBlock_leaves_input_channels [where p = "?p" and buffer = "?b"]
  have nz: "getNumSamples (delayBuffer ?p) \<noteq> 0"
    by (simp add: example_simps)
  with frame obtain q out where R: "processBlock ?p ?b = Inr (q, out)"
    by blast
  have out: "bufferAfter (processBlock ?p ?b) = out"
    by (simp only: R after_simps)
  from frame R have inputs: "\<forall>c < totalNumInputChannels ?p. channels out c = channels ?b c"
    and cleared: "\<forall>c. totalNumInputChannels ?p \<le> c \<and> c < totalNumOutputChannels ?p \<longrightarrow>
            (\<forall>i. 0 \<le> i \<and> i < getNumSamples ?b \<longrightarrow> channels out c i = 0)"
    by blast+
  have "channels out 0 = channels ?b 0"
    using inputs [rule_format, of 0] by (simp add: prepareToPlay_simps newProcessor_simps)
  then have a: "channels out 0 1 = 4"
    by (simp add: stereoBuffer_def)
  have b: "channels out 1 1 = 0"
    using cleared [rule_format, of 1 1]
    by (simp add: prepareToPlay_simps newProcessor_simps stereoBuffer_def getNumSamples_def)
  show ?thesis
    unfolding out using nz a b by simp
qed

end
